theory Spec2Isabelle
  imports Complex_Main
begin

section \<open>The terminal viewport: write queue, reconciliation and fit\<close>

text \<open>
  A shallow embedding of \<^verbatim>\<open>TerminalViewport.tsx\<close>. The refs of the React component
  (\<^verbatim>\<open>writeQueueRef\<close>, \<^verbatim>\<open>isWritingRef\<close>, \<^verbatim>\<open>processedCountRef\<close>,
  \<^verbatim>\<open>firstChunkIdRef\<close>, \<^verbatim>\<open>terminalRef\<close>, \<^verbatim>\<open>fitAddonRef\<close>,
  \<^verbatim>\<open>containerRef\<close>) are the fields of one record that every callback takes and returns.
  The rendering surface (xterm) is outside the repository; what the component does to it is
  recorded, in order, in the field \<open>surfaceLog\<close>. JavaScript numbers are taken as exact
  reals; chunk ids and counts are integers.
\<close>

record chunk =
  chunk_id :: int
  chunk_data :: string

record rect =
  width :: real
  height :: real

datatype surface_call =
  TermWrite string
  | TermReset
  | AddonFit
  | OnResize nat nat

record viewport_state =
  terminalRef :: bool
  fitAddonRef :: bool
  containerRef :: "rect option"
  fitOutcome :: "(nat \<times> nat) option"
  hasWindow :: bool
  writeQueue :: "string list"
  isWriting :: bool
  processedCount :: nat
  firstChunkId :: "int option"
  surfaceLog :: "surface_call list"
  outstanding :: nat
  timers :: nat

text \<open>
  \<open>terminalRef\<close> and \<open>fitAddonRef\<close> say whether the ref holds an object; \<open>containerRef\<close>
  holds the bounding rectangle that \<^verbatim>\<open>getBoundingClientRect\<close> measures.
  \<open>fitOutcome\<close> is what the external \<^verbatim>\<open>fitAddon.fit()\<close> does at the current layout:
  \<open>None\<close> when it throws, otherwise the columns and rows the terminal has afterwards.
  \<open>outstanding\<close> counts the writes handed to the surface whose completion callback has not
  fired yet, and \<open>timers\<close> the pending \<^verbatim>\<open>setTimeout(consumeNext, 0)\<close> calls.
\<close>

definition resetWriteState :: "viewport_state \<Rightarrow> viewport_state" where
  "resetWriteState s =
     s\<lparr>writeQueue := [], isWriting := False, processedCount := 0, firstChunkId := None\<rparr>"

definition fitTerminal :: "viewport_state \<Rightarrow> viewport_state" where
  "fitTerminal s =
     (if \<not> fitAddonRef s \<or> \<not> terminalRef s then s
      else case containerRef s of
        None \<Rightarrow> s
      | Some r \<Rightarrow>
          if width r < 24 \<or> height r < 24 then s
          else (case fitOutcome s of
                  None \<Rightarrow> s\<lparr>surfaceLog := surfaceLog s @ [AddonFit]\<rparr>
                | Some (cols, rows) \<Rightarrow>
                    s\<lparr>surfaceLog := surfaceLog s @ [AddonFit, OnResize cols rows]\<rparr>))"

text \<open>
  \<^verbatim>\<open>consumeNext\<close>, the closure inside \<^verbatim>\<open>flushWriteQueue\<close>: it shifts the head of
  the queue and hands it to \<^verbatim>\<open>term.write\<close>, which returns at once and calls back later.
\<close>

definition consumeNext :: "viewport_state \<Rightarrow> viewport_state" where
  "consumeNext s =
     (if \<not> terminalRef s then resetWriteState s
      else case writeQueue s of
        [] \<Rightarrow> s\<lparr>isWriting := False\<rparr>
      | c # rest \<Rightarrow>
          s\<lparr>writeQueue := rest, isWriting := True,
            surfaceLog := surfaceLog s @ [TermWrite c],
            outstanding := Suc (outstanding s)\<rparr>)"

definition flushWriteQueue :: "viewport_state \<Rightarrow> viewport_state" where
  "flushWriteQueue s = (if isWriting s then s else consumeNext s)"

definition enqueueWrite :: "string \<Rightarrow> viewport_state \<Rightarrow> viewport_state" where
  "enqueueWrite d s =
     (if d = [] then s
      else flushWriteQueue (s\<lparr>writeQueue := [d], isWriting := False\<rparr>))"

text \<open>
  The completion callback given to \<^verbatim>\<open>term.write\<close>, and the two events of the
  environment that run code of the queue: the surface completing its oldest write, and a
  timer firing.
\<close>

definition writeCallback :: "viewport_state \<Rightarrow> viewport_state" where
  "writeCallback s =
     (let s1 = s\<lparr>isWriting := False\<rparr> in
      if writeQueue s1 \<noteq> [] then
        (if hasWindow s1 then s1\<lparr>timers := Suc (timers s1)\<rparr> else consumeNext s1)
      else s1)"

definition writeCompleted :: "viewport_state \<Rightarrow> viewport_state" where
  "writeCompleted s =
     (if outstanding s = 0 then s
      else writeCallback (s\<lparr>outstanding := outstanding s - 1\<rparr>))"

definition timerFired :: "viewport_state \<Rightarrow> viewport_state" where
  "timerFired s =
     (if timers s = 0 then s else consumeNext (s\<lparr>timers := timers s - 1\<rparr>))"

definition terminalReset :: "viewport_state \<Rightarrow> viewport_state" where
  "terminalReset s = s\<lparr>surfaceLog := surfaceLog s @ [TermReset]\<rparr>"

text \<open>
  The effect on \<^verbatim>\<open>chunks\<close>: \<^verbatim>\<open>chunks.slice(n)\<close> is \<open>drop n\<close>, and
  \<^verbatim>\<open>map(chunk => chunk.data).join('')\<close> is \<open>concat (map chunk_data _)\<close>.
\<close>

definition reconcile :: "chunk list \<Rightarrow> viewport_state \<Rightarrow> viewport_state" where
  "reconcile chunks s =
     (if \<not> terminalRef s then s
      else case chunks of
        [] \<Rightarrow>
          (if processedCount s \<noteq> 0
           then fitTerminal (resetWriteState (terminalReset s)) else s)
      | c0 # _ \<Rightarrow>
          (let currentFirstId = chunk_id c0;
               s1 = (if firstChunkId s = None
                     then s\<lparr>firstChunkId := Some currentFirstId\<rparr> else s);
               shouldReset = (firstChunkId s1 \<noteq> Some currentFirstId
                              \<or> processedCount s1 > length chunks);
               s2 = (if shouldReset
                     then (resetWriteState (terminalReset s1))
                            \<lparr>firstChunkId := Some currentFirstId\<rparr>
                     else s1)
           in if processedCount s2 < length chunks
              then (enqueueWrite (concat (map chunk_data (drop (processedCount s2) chunks))) s2)
                     \<lparr>processedCount := length chunks\<rparr>
              else s2))"

text \<open>A freshly mounted viewport: surface and addon created, nothing written yet.\<close>

definition mounted :: "real \<Rightarrow> real \<Rightarrow> viewport_state" where
  "mounted w h =
     \<lparr>terminalRef = True, fitAddonRef = True,
      containerRef = Some \<lparr>width = w, height = h\<rparr>,
      fitOutcome = Some (80, 24), hasWindow = True,
      writeQueue = [], isWriting = False, processedCount = 0, firstChunkId = None,
      surfaceLog = [], outstanding = 0, timers = 0\<rparr>"

definition mk_chunk :: "int \<Rightarrow> string \<Rightarrow> chunk" where
  "mk_chunk i d = \<lparr>chunk_id = i, chunk_data = d\<rparr>"

text \<open>
  The environment of the write queue: the surface completes its oldest write and runs the
  callback, or a timer set by a callback fires.
\<close>

datatype env_event = WriteCompleted | TimerFired

fun envStep :: "viewport_state \<Rightarrow> env_event \<Rightarrow> viewport_state" where
  "envStep s WriteCompleted = writeCompleted s"
| "envStep s TimerFired = timerFired s"

definition envRun :: "env_event list \<Rightarrow> viewport_state \<Rightarrow> viewport_state" where
  "envRun evs s = foldl envStep s evs"


definition after_ab :: viewport_state where
  "after_ab = reconcile [mk_chunk 1 ''a'', mk_chunk 2 ''b''] (mounted 30 30)"

section \<open>The kinetic scroll engine\<close>

text \<open>
  \<^verbatim>\<open>setupTouchScroll\<close> closes over the object \<^verbatim>\<open>state\<close> (with \<^verbatim>\<open>pointerId\<close>
  added by \<^verbatim>\<open>Object.assign\<close> on the pointer path) and over the element
  \<^verbatim>\<open>viewport\<close>; the record below holds the fields of both. \<open>rafCount\<close> counts the calls
  of \<^verbatim>\<open>requestAnimationFrame\<close>, whose handles are 1, 2, ...; \<open>inBrowser\<close> is
  \<^verbatim>\<open>typeof window !== 'undefined'\<close>. Every handler takes the value its calls of
  \<^verbatim>\<open>nowMs()\<close> return as the argument \<open>now\<close>. Assigning \<^verbatim>\<open>viewport.scrollTop\<close> stores
  the assigned number. Pointer capture, \<^verbatim>\<open>preventDefault\<close> and
  \<^verbatim>\<open>stopPropagation\<close> touch nothing of this state and are left out.
\<close>

record scroll_state =
  lastY :: "real option"
  lastTime :: "real option"
  velocity :: real
  rafId :: "nat option"
  pointerId :: "int option"
  scrollTop :: real
  scrollHeight :: real
  clientHeight :: real
  rafCount :: nat
  inBrowser :: bool

record pointer_event =
  pointerType :: string
  evPointerId :: int
  clientY :: real
  cancelable :: bool

definition baseScrollMultiplier :: real where "baseScrollMultiplier = 2.2"
definition maxScrollBoost :: real where "maxScrollBoost = 2.8"
definition boostDenominator :: real where "boostDenominator = 25"
definition velocityAlpha :: real where "velocityAlpha = 0.25"
definition maxVelocity :: real where "maxVelocity = 8"
definition minVelocity :: real where "minVelocity = 0.05"
definition deceleration :: real where "deceleration = 0.015"

definition getMaxScrollTop :: "scroll_state \<Rightarrow> real" where
  "getMaxScrollTop s = max 0 (scrollHeight s - clientHeight s)"

definition setScrollTop :: "real \<Rightarrow> scroll_state \<Rightarrow> scroll_state" where
  "setScrollTop nextScrollTop s =
     (let maxScrollTop = getMaxScrollTop s in
      s\<lparr>scrollTop := max 0 (min maxScrollTop nextScrollTop)\<rparr>)"

text \<open>
  \<^verbatim>\<open>scrollByPixels\<close> returns \<^verbatim>\<open>undefined\<close> (here \<open>None\<close>) for a zero delta and
  otherwise whether the offset changed.
\<close>

definition scrollByPixels :: "real \<Rightarrow> scroll_state \<Rightarrow> bool option \<times> scroll_state" where
  "scrollByPixels deltaPixels s =
     (if deltaPixels = 0 then (None, s)
      else let previous = scrollTop s;
               s' = setScrollTop (previous + deltaPixels) s
           in (Some (scrollTop s' \<noteq> previous), s'))"

text \<open>
  \<^verbatim>\<open>stopKinetic\<close> cancels the pending frame and clears the handle. The browser's list of
  pending callbacks is not part of the state: which frames run is given from outside (the
  list of frame times of \<open>kineticLoop\<close>, the events of \<open>fire\<close>), so of the cancellation
  only the cleared handle is kept. \<^verbatim>\<open>requestAnimationFrame\<close> hands out the next handle.
\<close>

definition stopKinetic :: "scroll_state \<Rightarrow> scroll_state" where
  "stopKinetic s = s\<lparr>rafId := None\<rparr>"

definition requestAnimationFrame :: "scroll_state \<Rightarrow> scroll_state" where
  "requestAnimationFrame s =
     s\<lparr>rafCount := Suc (rafCount s), rafId := Some (Suc (rafCount s))\<rparr>"

definition handlePointerDown :: "pointer_event \<Rightarrow> real \<Rightarrow> scroll_state \<Rightarrow> scroll_state" where
  "handlePointerDown ev now s =
     (if pointerType ev \<noteq> ''touch'' then s
      else (stopKinetic s)
             \<lparr>pointerId := Some (evPointerId ev), lastY := Some (clientY ev),
              lastTime := Some now, velocity := 0\<rparr>)"

definition handlePointerMove :: "pointer_event \<Rightarrow> real \<Rightarrow> scroll_state \<Rightarrow> scroll_state" where
  "handlePointerMove ev now s =
     (if pointerType ev \<noteq> ''touch'' \<or> pointerId s \<noteq> Some (evPointerId ev) then s
      else case lastY s of
        None \<Rightarrow> s\<lparr>lastY := Some (clientY ev), lastTime := Some now\<rparr>
      | Some previousY \<Rightarrow>
          (let previousTime = (case lastTime s of None \<Rightarrow> now | Some t \<Rightarrow> t);
               currentTime = now;
               s1 = s\<lparr>lastY := Some (clientY ev), lastTime := Some currentTime\<rparr>;
               deltaY = previousY - clientY ev
           in if \<bar>deltaY\<bar> < 1 then s1
              else
                (let dt = max (currentTime - previousTime) 8;
                     scrollMultiplier =
                       baseScrollMultiplier + min maxScrollBoost (\<bar>deltaY\<bar> / boostDenominator);
                     deltaPixels = deltaY * scrollMultiplier;
                     instantVelocity = deltaPixels / dt;
                     v = velocity s1 * (1 - velocityAlpha) + instantVelocity * velocityAlpha;
                     s2 = s1\<lparr>velocity :=
                             (if v > maxVelocity then maxVelocity
                              else if v < - maxVelocity then - maxVelocity else v)\<rparr>
                 in snd (scrollByPixels deltaPixels s2))))"

text \<open>
  The frame callback \<^verbatim>\<open>step\<close> of the inertial animation, the same text in
  \<^verbatim>\<open>handlePointerUp\<close> and \<^verbatim>\<open>handleTouchEnd\<close>. \<open>lastFrame\<close> is the variable of the
  enclosing handler that \<^verbatim>\<open>step\<close> reads and then sets to \<open>frameTime\<close>; the caller
  threads it.
\<close>

definition inertiaStep :: "real \<Rightarrow> real \<Rightarrow> scroll_state \<Rightarrow> scroll_state" where
  "inertiaStep frameTime lastFrame s =
     (let dt = max (frameTime - lastFrame) 8;
          (r, s1) = scrollByPixels (velocity s * dt) s;
          moved = (case r of None \<Rightarrow> False | Some b \<Rightarrow> b);
          sign = sgn (velocity s1);
          nextMagnitude = max 0 (\<bar>velocity s1\<bar> - deceleration * dt);
          s2 = s1\<lparr>velocity := nextMagnitude * sign\<rparr>
      in if \<not> moved \<or> nextMagnitude \<le> minVelocity
         then (stopKinetic s2)\<lparr>velocity := 0\<rparr>
         else requestAnimationFrame s2)"

definition handlePointerUp :: "pointer_event \<Rightarrow> real \<Rightarrow> scroll_state \<Rightarrow> scroll_state" where
  "handlePointerUp ev now s =
     (if pointerType ev \<noteq> ''touch'' \<or> pointerId s \<noteq> Some (evPointerId ev) then s
      else let s1 = s\<lparr>pointerId := None, lastY := None, lastTime := None\<rparr>
           in if \<not> inBrowser s1 then s1
              else if \<bar>velocity s1\<bar> < minVelocity then s1\<lparr>velocity := 0\<rparr>
              else requestAnimationFrame s1)"

text \<open>
  The legacy touch path. An event is the list of the \<^verbatim>\<open>clientY\<close> of its
  \<^verbatim>\<open>touches\<close>.
\<close>

definition handleTouchStart :: "real list \<Rightarrow> real \<Rightarrow> scroll_state \<Rightarrow> scroll_state" where
  "handleTouchStart touches now s =
     (case touches of
        [y] \<Rightarrow> (stopKinetic s)\<lparr>lastY := Some y, lastTime := Some now, velocity := 0\<rparr>
      | _ \<Rightarrow> s)"

definition handleTouchMove :: "real list \<Rightarrow> real \<Rightarrow> scroll_state \<Rightarrow> scroll_state" where
  "handleTouchMove touches now s =
     (case touches of
        [currentY] \<Rightarrow>
          (case lastY s of
             None \<Rightarrow> s\<lparr>lastY := Some currentY, lastTime := Some now\<rparr>
           | Some previousY \<Rightarrow>
               (let previousTime = (case lastTime s of None \<Rightarrow> now | Some t \<Rightarrow> t);
                    currentTime = now;
                    s1 = s\<lparr>lastY := Some currentY, lastTime := Some currentTime\<rparr>;
                    deltaY = previousY - currentY
                in if \<bar>deltaY\<bar> < 1 then s1
                   else
                     (let dt = max (currentTime - previousTime) 8;
                          scrollMultiplier =
                            baseScrollMultiplier
                            + min maxScrollBoost (\<bar>deltaY\<bar> / boostDenominator);
                          deltaPixels = deltaY * scrollMultiplier;
                          instantVelocity = deltaPixels / dt;
                          v = velocity s1 * (1 - velocityAlpha)
                              + instantVelocity * velocityAlpha;
                          s2 = s1\<lparr>velocity :=
                                  (if v > maxVelocity then maxVelocity
                                   else if v < - maxVelocity then - maxVelocity else v)\<rparr>
                      in snd (scrollByPixels deltaPixels s2))))
      | _ \<Rightarrow> stopKinetic (s\<lparr>lastY := None, lastTime := None, velocity := 0\<rparr>))"

definition handleTouchEnd :: "real \<Rightarrow> scroll_state \<Rightarrow> scroll_state" where
  "handleTouchEnd now s =
     (let s1 = s\<lparr>lastY := None, lastTime := None\<rparr>
      in if \<not> inBrowser s1 then s1
         else if \<bar>velocity s1\<bar> < minVelocity then s1\<lparr>velocity := 0\<rparr>
         else requestAnimationFrame s1)"

text \<open>
  The animation after a release: the browser delivers the frames at the times of the list,
  and each \<^verbatim>\<open>step\<close> either asks for the next frame (it sets \<open>rafId\<close>) or stops. The
  result counts the frames that ran. When the list ends first, the animation is still
  pending (\<open>rafId\<close> is set).
\<close>

fun kineticLoop :: "real \<Rightarrow> real list \<Rightarrow> scroll_state \<Rightarrow> nat \<times> scroll_state" where
  "kineticLoop lastFrame [] s = (0, s)"
| "kineticLoop lastFrame (frameTime # rest) s =
     (let s' = inertiaStep frameTime lastFrame s in
      if rafId s' = None then (1, s')
      else (case kineticLoop frameTime rest s' of (n, s'') \<Rightarrow> (Suc n, s'')))"

text \<open>The \<^verbatim>\<open>dt\<close> of each frame of such an animation.\<close>

fun frameIntervals :: "real \<Rightarrow> real list \<Rightarrow> real list" where
  "frameIntervals lastFrame [] = []"
| "frameIntervals lastFrame (frameTime # rest) =
     max (frameTime - lastFrame) 8 # frameIntervals frameTime rest"

text \<open>
  Every run of a handler of the engine. The scheduler is left open: any handler may run at
  any time with any arguments, which covers every order a browser produces.
\<close>

datatype scroll_event =
  PointerDown pointer_event real
  | PointerMove pointer_event real
  | PointerUp pointer_event real
  | TouchStart "real list" real
  | TouchMove "real list" real
  | TouchEnd real
  | AnimationFrame real real

fun fire :: "scroll_state \<Rightarrow> scroll_event \<Rightarrow> scroll_state" where
  "fire s (PointerDown ev now) = handlePointerDown ev now s"
| "fire s (PointerMove ev now) = handlePointerMove ev now s"
| "fire s (PointerUp ev now) = handlePointerUp ev now s"
| "fire s (TouchStart touches now) = handleTouchStart touches now s"
| "fire s (TouchMove touches now) = handleTouchMove touches now s"
| "fire s (TouchEnd now) = handleTouchEnd now s"
| "fire s (AnimationFrame frameTime lastFrame) = inertiaStep frameTime lastFrame s"

definition fireAll :: "scroll_event list \<Rightarrow> scroll_state \<Rightarrow> scroll_state" where
  "fireAll evs s = foldl fire s evs"

text \<open>The scroll offset lies between 0 and the largest offset of the viewport.\<close>

definition inRange :: "scroll_state \<Rightarrow> bool" where
  "inRange s = (0 \<le> scrollTop s \<and> scrollTop s \<le> getMaxScrollTop s)"

text \<open>A viewport of 100 pixels showing 1000 pixels of content, at rest at offset \<open>y0\<close>.\<close>

definition resting :: "real \<Rightarrow> scroll_state" where
  "resting y0 =
     \<lparr>lastY = None, lastTime = None, velocity = 0, rafId = None, pointerId = None,
      scrollTop = y0, scrollHeight = 1000, clientHeight = 100, rafCount = 0,
      inBrowser = True\<rparr>"

definition touch_at :: "real \<Rightarrow> pointer_event" where
  "touch_at y = \<lparr>pointerType = ''touch'', evPointerId = 1, clientY = y, cancelable = True\<rparr>"

text \<open>
  A finger down at \<open>y = 100\<close> at time 0, on the pointer path and on the touch path, and a
  touch released at time 0 with velocity \<open>v\<close>.
\<close>

definition tracking :: scroll_state where
  "tracking = handlePointerDown (touch_at 100) 0 (resting 500)"

definition touching :: scroll_state where
  "touching = handleTouchStart [100] 0 (resting 500)"

definition released :: "real \<Rightarrow> scroll_state" where
  "released v = handleTouchEnd 0 ((resting 500)\<lparr>velocity := v\<rparr>)"

section \<open>Properties of the write queue\<close>

lemma enqueueWrite_live:
  "terminalRef s \<Longrightarrow> d \<noteq> [] \<Longrightarrow>
   enqueueWrite d s =
     s\<lparr>writeQueue := [], isWriting := True,
       surfaceLog := surfaceLog s @ [TermWrite d],
       outstanding := Suc (outstanding s)\<rparr>"
  by (simp add: enqueueWrite_def flushWriteQueue_def consumeNext_def)

lemma enqueueWrite_empty: "enqueueWrite [] s = s"
  by (simp add: enqueueWrite_def)

text \<open>
  Claim C1 says that at most one write is outstanding at any time, the busy flag being
  cleared only by the completion callback. \<^verbatim>\<open>enqueueWrite\<close> clears the flag itself
  before it calls \<^verbatim>\<open>flushWriteQueue\<close>, so the guard of \<^verbatim>\<open>flushWriteQueue\<close> never
  holds a write back: two payloads enqueued with no completion in between are both handed
  to the surface, and two writes are outstanding.
\<close>

theorem enqueue_twice_two_outstanding:
  "outstanding (enqueueWrite ''b'' (enqueueWrite ''a'' (mounted 30 30))) = 2
   \<and> isWriting (enqueueWrite ''a'' (mounted 30 30))
   \<and> surfaceLog (enqueueWrite ''b'' (enqueueWrite ''a'' (mounted 30 30)))
       = [TermWrite ''a'', TermWrite ''b'']"
  by (simp add: mounted_def enqueueWrite_def flushWriteQueue_def consumeNext_def)

text \<open>
  Claim C10: enqueuing the empty string changes nothing: the queue, the busy flag and the
  surface are as before, and no write is issued.
\<close>

theorem enqueue_empty_noop: "enqueueWrite [] s = s"
  by (simp add: enqueueWrite_def)

theorem enqueue_empty_noop_witness:
  "enqueueWrite [] (enqueueWrite ''a'' (mounted 30 30)) = enqueueWrite ''a'' (mounted 30 30)"
  using enqueue_empty_noop [of "enqueueWrite ''a'' (mounted 30 30)"] by simp

section \<open>Properties of the reconciliation\<close>

lemma reconcile_Cons:
  "terminalRef s \<Longrightarrow>
   reconcile (c0 # cs) s =
     (let s1 = (if firstChunkId s = None then s\<lparr>firstChunkId := Some (chunk_id c0)\<rparr> else s);
          s2 = (if firstChunkId s1 \<noteq> Some (chunk_id c0) \<or> processedCount s1 > Suc (length cs)
                then (resetWriteState (terminalReset s1))\<lparr>firstChunkId := Some (chunk_id c0)\<rparr>
                else s1)
      in if processedCount s2 < Suc (length cs)
         then (enqueueWrite (concat (map chunk_data (drop (processedCount s2) (c0 # cs)))) s2)
                \<lparr>processedCount := Suc (length cs)\<rparr>
         else s2)"
  by (simp add: reconcile_def Let_def)


lemma after_ab_eval:
  "after_ab = (mounted 30 30)
     \<lparr>writeQueue := [], isWriting := True, processedCount := 2, firstChunkId := Some 1,
      surfaceLog := [TermWrite ''ab''], outstanding := 1\<rparr>"
  by (simp add: after_ab_def reconcile_def mounted_def mk_chunk_def enqueueWrite_def
      flushWriteQueue_def consumeNext_def)

lemma reconcile_when_reset:
  assumes live: "terminalRef s" and ne: "chunks \<noteq> []"
    and cond: "(\<exists>f. firstChunkId s = Some f \<and> f \<noteq> chunk_id (hd chunks))
         \<or> length chunks < processedCount s"
  shows "reconcile chunks s =
     (let payload = concat (map chunk_data chunks) in
      s\<lparr>writeQueue := [], isWriting := (payload \<noteq> []),
        processedCount := length chunks,
        firstChunkId := Some (chunk_id (hd chunks)),
        surfaceLog := surfaceLog s @ TermReset # (if payload = [] then [] else [TermWrite payload]),
        outstanding := (if payload = [] then outstanding s else Suc (outstanding s))\<rparr>)"
proof -
  from ne obtain c0 cs where ch: "chunks = c0 # cs" by (cases chunks) auto
  define s1 where "s1 = (if firstChunkId s = None then s\<lparr>firstChunkId := Some (chunk_id c0)\<rparr> else s)"
  define s2 where "s2 = (resetWriteState (terminalReset s1))\<lparr>firstChunkId := Some (chunk_id c0)\<rparr>"
  define payload where "payload = concat (map chunk_data (c0 # cs))"
  have sr: "firstChunkId s1 \<noteq> Some (chunk_id c0) \<or> processedCount s1 > Suc (length cs)"
    using cond by (auto simp: s1_def ch)
  have s2: "s2 = s\<lparr>writeQueue := [], isWriting := False, processedCount := 0,
                   firstChunkId := Some (chunk_id c0), surfaceLog := surfaceLog s @ [TermReset]\<rparr>"
    by (simp add: s2_def s1_def resetWriteState_def terminalReset_def)
  have "reconcile (c0 # cs) s = (enqueueWrite payload s2)\<lparr>processedCount := Suc (length cs)\<rparr>"
    using sr unfolding reconcile_Cons [OF live] Let_def s1_def [symmetric]
    by (simp add: s2_def [symmetric] s2 payload_def)
  also have "\<dots> = s\<lparr>writeQueue := [], isWriting := (payload \<noteq> []),
        processedCount := Suc (length cs),
        firstChunkId := Some (chunk_id c0),
        surfaceLog := surfaceLog s @ TermReset # (if payload = [] then [] else [TermWrite payload]),
        outstanding := (if payload = [] then outstanding s else Suc (outstanding s))\<rparr>"
  proof (cases "payload = []")
    case True
    then show ?thesis by (simp add: enqueueWrite_empty s2)
  next
    case False
    then show ?thesis using live by (simp add: enqueueWrite_live s2)
  qed
  finally show ?thesis by (simp add: ch payload_def Let_def)
qed

lemma reconcile_when_same:
  assumes live: "terminalRef s" and lt: "processedCount s < length chunks"
    and same: "firstChunkId s = None \<or> firstChunkId s = Some (chunk_id (hd chunks))"
  shows "reconcile chunks s =
     (let delta = concat (map chunk_data (drop (processedCount s) chunks));
          s' = s\<lparr>firstChunkId := Some (chunk_id (hd chunks))\<rparr> in
      if delta = [] then s'\<lparr>processedCount := length chunks\<rparr>
      else s'\<lparr>writeQueue := [], isWriting := True, processedCount := length chunks,
             surfaceLog := surfaceLog s @ [TermWrite delta],
             outstanding := Suc (outstanding s)\<rparr>)"
proof -
  from lt obtain c0 cs where ch: "chunks = c0 # cs" by (cases chunks) auto
  define s1 where "s1 = (if firstChunkId s = None then s\<lparr>firstChunkId := Some (chunk_id c0)\<rparr> else s)"
  define delta where "delta = concat (map chunk_data (drop (processedCount s) (c0 # cs)))"
  have s1: "s1 = s\<lparr>firstChunkId := Some (chunk_id c0)\<rparr>"
    using same by (auto simp: s1_def ch)
  have nr: "\<not> (firstChunkId s1 \<noteq> Some (chunk_id c0) \<or> processedCount s1 > Suc (length cs))"
    using lt by (simp add: s1 ch)
  have "reconcile (c0 # cs) s = (enqueueWrite delta s1)\<lparr>processedCount := Suc (length cs)\<rparr>"
    using nr lt unfolding reconcile_Cons [OF live] Let_def s1_def [symmetric]
    by (simp add: s1 delta_def ch)
  also have "\<dots> = (if delta = [] then s1\<lparr>processedCount := Suc (length cs)\<rparr>
      else s1\<lparr>writeQueue := [], isWriting := True, processedCount := Suc (length cs),
             surfaceLog := surfaceLog s @ [TermWrite delta],
             outstanding := Suc (outstanding s)\<rparr>)"
  proof (cases "delta = []")
    case True
    then show ?thesis by (simp add: enqueueWrite_empty)
  next
    case False
    then show ?thesis using live by (simp add: enqueueWrite_live s1)
  qed
  finally show ?thesis by (simp add: ch delta_def Let_def s1)
qed



text \<open>
  Claim C3, as the code has it: with a live surface, \<open>processedCount\<close> below the length and
  no reset condition, the delta is the concatenation, in order, of the data of the chunks
  from index \<open>processedCount\<close> on, and \<open>processedCount\<close> becomes the length. When the delta
  is not empty it is enqueued as one payload and handed to the surface as one write; when
  it is empty (every new chunk has empty data) \<^verbatim>\<open>enqueueWrite\<close> returns at once and
  nothing is enqueued or written.
\<close>

theorem reconcile_delta:
  assumes live: "terminalRef s" and lt: "processedCount s < length chunks"
    and same: "firstChunkId s = None \<or> firstChunkId s = Some (chunk_id (hd chunks))"
  shows "reconcile chunks s =
     (let delta = concat (map chunk_data (drop (processedCount s) chunks));
          s' = s\<lparr>firstChunkId := Some (chunk_id (hd chunks))\<rparr> in
      if delta = [] then s'\<lparr>processedCount := length chunks\<rparr>
      else s'\<lparr>writeQueue := [], isWriting := True, processedCount := length chunks,
             surfaceLog := surfaceLog s @ [TermWrite delta],
             outstanding := Suc (outstanding s)\<rparr>)"
  using assms by (rule reconcile_when_same)

theorem reconcile_delta_witness:
  "terminalRef after_ab \<and> processedCount after_ab = 2
   \<and> surfaceLog (reconcile [mk_chunk 1 ''a'', mk_chunk 2 ''b'', mk_chunk 3 ''c''] after_ab)
       = surfaceLog after_ab @ [TermWrite ''c'']
   \<and> processedCount (reconcile [mk_chunk 1 ''a'', mk_chunk 2 ''b'', mk_chunk 3 ''c''] after_ab)
       = 3"
proof -
  have live: "terminalRef after_ab" by (simp add: after_ab_eval mounted_def)
  have lt: "processedCount after_ab
      < length [mk_chunk 1 ''a'', mk_chunk 2 ''b'', mk_chunk 3 ''c'']"
    by (simp add: after_ab_eval mounted_def)
  have same: "firstChunkId after_ab = None
      \<or> firstChunkId after_ab
         = Some (chunk_id (hd [mk_chunk 1 ''a'', mk_chunk 2 ''b'', mk_chunk 3 ''c'']))"
    by (simp add: after_ab_eval mounted_def mk_chunk_def)
  show ?thesis
    using reconcile_delta [OF live lt same]
    by (simp add: after_ab_eval mounted_def mk_chunk_def)
qed

text \<open>
  Claim C3 as stated (exactly one payload enqueued for every such reconciliation) fails
  where the delta is the empty string: one new chunk with empty data advances
  \<open>processedCount\<close> and leaves the queue and the surface untouched.
\<close>

theorem reconcile_empty_delta_counterexample:
  "terminalRef (mounted 30 30)
   \<and> processedCount (mounted 30 30) < length [mk_chunk 1 []]
   \<and> firstChunkId (mounted 30 30) = None
   \<and> writeQueue (reconcile [mk_chunk 1 []] (mounted 30 30)) = []
   \<and> surfaceLog (reconcile [mk_chunk 1 []] (mounted 30 30)) = []
   \<and> outstanding (reconcile [mk_chunk 1 []] (mounted 30 30)) = 0
   \<and> processedCount (reconcile [mk_chunk 1 []] (mounted 30 30)) = 1"
  by (simp add: reconcile_def mounted_def mk_chunk_def enqueueWrite_def)

lemma consumeNext_terminalRef: "terminalRef (consumeNext s) = terminalRef s"
  by (simp add: consumeNext_def resetWriteState_def split: list.splits)

lemma consumeNext_cursor:
  "terminalRef s \<Longrightarrow> processedCount (consumeNext s) = processedCount s
     \<and> firstChunkId (consumeNext s) = firstChunkId s"
  by (simp add: consumeNext_def split: list.splits)

lemma envStep_terminalRef: "terminalRef (envStep s e) = terminalRef s"
  by (cases e)
     (simp_all add: writeCompleted_def writeCallback_def timerFired_def
        consumeNext_terminalRef Let_def)

lemma envStep_cursor:
  "terminalRef s \<Longrightarrow> processedCount (envStep s e) = processedCount s
     \<and> firstChunkId (envStep s e) = firstChunkId s"
  by (cases e)
     (simp_all add: writeCompleted_def writeCallback_def timerFired_def
        consumeNext_cursor Let_def)

lemma envRun_terminalRef: "terminalRef (envRun evs s) = terminalRef s"
  unfolding envRun_def
  by (induction evs arbitrary: s) (simp_all add: envStep_terminalRef)

lemma envRun_cursor:
  "terminalRef s \<Longrightarrow> processedCount (envRun evs s) = processedCount s
     \<and> firstChunkId (envRun evs s) = firstChunkId s"
  unfolding envRun_def
  by (induction evs arbitrary: s) (simp_all add: envStep_cursor envStep_terminalRef)

lemma reconcile_settled:
  "terminalRef s \<Longrightarrow> chunks \<noteq> [] \<Longrightarrow> processedCount s = length chunks \<Longrightarrow>
   firstChunkId s = Some (chunk_id (hd chunks)) \<Longrightarrow> reconcile chunks s = s"
  by (cases chunks) (simp_all add: reconcile_def Let_def)

lemma reconcile_empty_cursor:
  "terminalRef s \<Longrightarrow> processedCount (reconcile [] s) = 0"
  by (simp add: reconcile_def fitTerminal_def resetWriteState_def terminalReset_def
      split: option.splits prod.splits)

lemma reconcile_terminalRef: "terminalRef (reconcile [] s) = terminalRef s"
  by (simp add: reconcile_def fitTerminal_def resetWriteState_def terminalReset_def
      split: option.splits prod.splits)

lemma reconcile_cursor:
  assumes "terminalRef s" and "chunks \<noteq> []"
  shows "terminalRef (reconcile chunks s) \<and> processedCount (reconcile chunks s) = length chunks
   \<and> firstChunkId (reconcile chunks s) = Some (chunk_id (hd chunks))"
proof (cases "(\<exists>f. firstChunkId s = Some f \<and> f \<noteq> chunk_id (hd chunks))
         \<or> length chunks < processedCount s")
  case True
  show ?thesis
    using assms(1) unfolding reconcile_when_reset [OF assms True] by (simp add: Let_def)
next
  case False
  then have same: "firstChunkId s = None \<or> firstChunkId s = Some (chunk_id (hd chunks))"
    by (cases "firstChunkId s") auto
  show ?thesis
  proof (cases "processedCount s < length chunks")
    case True
    show ?thesis
      using assms(1) unfolding reconcile_when_same [OF assms(1) True same] by (simp add: Let_def)
  next
    case nlt: False
    with False have eq: "processedCount s = length chunks" by simp
    from assms(2) obtain c0 cs where ch: "chunks = c0 # cs" by (cases chunks) auto
    show ?thesis using assms(1) same eq
      by (auto simp: ch reconcile_Cons Let_def)
  qed
qed

text \<open>
  Claim C4: reconciling the same chunk sequence a second time changes nothing: no payload
  is enqueued and the surface sees no reset and no write. This holds for every chunk
  sequence and every state, and whatever the surface did in between (completions of
  writes, timers).
\<close>

theorem reconcile_idempotent:
  "reconcile chunks (envRun evs (reconcile chunks s)) = envRun evs (reconcile chunks s)"
proof (cases "terminalRef s")
  case False
  then have a: "reconcile chunks s = s" by (simp add: reconcile_def)
  from False have "\<not> terminalRef (envRun evs s)" by (simp add: envRun_terminalRef)
  then show ?thesis using a by (simp add: reconcile_def)
next
  case True
  show ?thesis
  proof (cases chunks)
    case Nil
    from True have t: "terminalRef (reconcile [] s)" by (simp add: reconcile_terminalRef)
    from True have "processedCount (reconcile [] s) = 0" by (rule reconcile_empty_cursor)
    then have "processedCount (envRun evs (reconcile [] s)) = 0"
      using envRun_cursor [OF t] by simp
    then show ?thesis using Nil by (simp add: reconcile_def)
  next
    case (Cons c cs)
    then have ne: "chunks \<noteq> []" by simp
    note r = reconcile_cursor [OF True ne]
    from r have t: "terminalRef (reconcile chunks s)" by simp
    have e1: "terminalRef (envRun evs (reconcile chunks s))"
      using t by (simp add: envRun_terminalRef)
    have e2: "processedCount (envRun evs (reconcile chunks s)) = length chunks"
      using envRun_cursor [OF t] r by simp
    have e3: "firstChunkId (envRun evs (reconcile chunks s)) = Some (chunk_id (hd chunks))"
      using envRun_cursor [OF t] r by simp
    show ?thesis by (rule reconcile_settled [OF e1 ne e2 e3])
  qed
qed

theorem reconcile_idempotent_witness:
  "surfaceLog (reconcile [mk_chunk 1 ''a'', mk_chunk 2 ''b''] (envRun [WriteCompleted] after_ab))
     = [TermWrite ''ab'']
   \<and> writeQueue (reconcile [mk_chunk 1 ''a'', mk_chunk 2 ''b''] (envRun [WriteCompleted] after_ab))
     = []"
proof -
  have e: "envRun [WriteCompleted] after_ab = after_ab\<lparr>isWriting := False, outstanding := 0\<rparr>"
    by (simp add: envRun_def writeCompleted_def writeCallback_def after_ab_eval mounted_def)
  show ?thesis
    using reconcile_idempotent
      [of "[mk_chunk 1 ''a'', mk_chunk 2 ''b'']" "[WriteCompleted]" "mounted 30 30"]
    unfolding after_ab_def [symmetric] e
    by (simp add: after_ab_eval mounted_def)
qed

section \<open>Properties of the fit\<close>

text \<open>
  Claim C7, as the code has it: \<^verbatim>\<open>fitTerminal\<close> skips the fit when the width or the
  height of the container is below 24 pixels, and with the addon, the surface and the
  container present it calls the addon's fit, and then the resize callback unless the fit
  threw, when both are at least 24 pixels. A container of 20 by 20 is skipped, one of 30 by
  30 is fitted.
\<close>

theorem fit_guard:
  "(containerRef s = Some r \<and> (width r < 24 \<or> height r < 24) \<longrightarrow> fitTerminal s = s)
   \<and> (fitAddonRef s \<and> terminalRef s \<and> containerRef s = Some r
        \<and> 24 \<le> width r \<and> 24 \<le> height r
        \<longrightarrow> surfaceLog (fitTerminal s) =
             surfaceLog s @ AddonFit #
               (case fitOutcome s of None \<Rightarrow> [] | Some (c, k) \<Rightarrow> [OnResize c k]))"
  by (auto simp: fitTerminal_def split: option.splits)

theorem fit_guard_witness:
  "fitTerminal (mounted 20 20) = mounted 20 20
   \<and> surfaceLog (fitTerminal (mounted 30 30)) = [AddonFit, OnResize 80 24]"
  using fit_guard [of "mounted 20 20" "\<lparr>width = 20, height = 20\<rparr>"]
    fit_guard [of "mounted 30 30" "\<lparr>width = 30, height = 30\<rparr>"]
  by (simp add: mounted_def)

text \<open>
  Claim C7 as stated skips the fit for every container whose width or height does not
  exceed 24 pixels. A container of exactly 24 by 24 is fitted.
\<close>

theorem fit_at_threshold_counterexample:
  "containerRef (mounted 24 24) = Some \<lparr>width = 24, height = 24\<rparr>
   \<and> fitTerminal (mounted 24 24) \<noteq> mounted 24 24
   \<and> surfaceLog (fitTerminal (mounted 24 24)) = [AddonFit, OnResize 80 24]"
  by (simp add: mounted_def fitTerminal_def)

section \<open>Properties of the kinetic scroll engine\<close>

lemma setScrollTop_range:
  "0 \<le> scrollTop (setScrollTop x s) \<and> scrollTop (setScrollTop x s) \<le> getMaxScrollTop s"
  by (simp add: setScrollTop_def getMaxScrollTop_def Let_def)

lemma setScrollTop_geometry:
  "scrollHeight (setScrollTop x s) = scrollHeight s
   \<and> clientHeight (setScrollTop x s) = clientHeight s"
  by (simp add: setScrollTop_def Let_def)

lemma scrollByPixels_geometry:
  "scrollHeight (snd (scrollByPixels d s)) = scrollHeight s
   \<and> clientHeight (snd (scrollByPixels d s)) = clientHeight s"
  by (simp add: scrollByPixels_def Let_def setScrollTop_geometry)

lemma scrollByPixels_range:
  "inRange s \<Longrightarrow> inRange (snd (scrollByPixels d s))"
  using setScrollTop_range [of "scrollTop s + d" s]
  by (simp add: inRange_def scrollByPixels_def Let_def getMaxScrollTop_def
      setScrollTop_geometry)

lemma inRange_cong:
  "scrollTop t = scrollTop s \<Longrightarrow> scrollHeight t = scrollHeight s \<Longrightarrow>
   clientHeight t = clientHeight s \<Longrightarrow> inRange t = inRange s"
  by (simp add: inRange_def getMaxScrollTop_def)

lemma handlePointerDown_keeps:
  "scrollTop (handlePointerDown ev now s) = scrollTop s
   \<and> scrollHeight (handlePointerDown ev now s) = scrollHeight s
   \<and> clientHeight (handlePointerDown ev now s) = clientHeight s"
  by (simp add: handlePointerDown_def stopKinetic_def)

lemma handlePointerUp_keeps:
  "scrollTop (handlePointerUp ev now s) = scrollTop s
   \<and> scrollHeight (handlePointerUp ev now s) = scrollHeight s
   \<and> clientHeight (handlePointerUp ev now s) = clientHeight s"
  by (simp add: handlePointerUp_def requestAnimationFrame_def Let_def)

lemma handleTouchStart_keeps:
  "scrollTop (handleTouchStart touches now s) = scrollTop s
   \<and> scrollHeight (handleTouchStart touches now s) = scrollHeight s
   \<and> clientHeight (handleTouchStart touches now s) = clientHeight s"
  by (simp add: handleTouchStart_def stopKinetic_def split: list.splits)

lemma handleTouchEnd_keeps:
  "scrollTop (handleTouchEnd now s) = scrollTop s
   \<and> scrollHeight (handleTouchEnd now s) = scrollHeight s
   \<and> clientHeight (handleTouchEnd now s) = clientHeight s"
  by (simp add: handleTouchEnd_def requestAnimationFrame_def Let_def)

text \<open>The three shapes of the result of a move handler.\<close>

lemma handlePointerMove_shape:
  "handlePointerMove ev now s = s
   \<or> (\<exists>a b. handlePointerMove ev now s = s\<lparr>lastY := a, lastTime := b\<rparr>)
   \<or> (\<exists>a b v d. handlePointerMove ev now s
         = snd (scrollByPixels d (s\<lparr>lastY := a, lastTime := b, velocity := v\<rparr>)))"
proof (cases "pointerType ev \<noteq> ''touch'' \<or> pointerId s \<noteq> Some (evPointerId ev)")
  case True
  then show ?thesis by (simp add: handlePointerMove_def)
next
  case live: False
  show ?thesis
  proof (cases "lastY s")
    case None
    with live have "handlePointerMove ev now s = s\<lparr>lastY := Some (clientY ev), lastTime := Some now\<rparr>"
      by (simp add: handlePointerMove_def)
    then show ?thesis by blast
  next
    case (Some previousY)
    show ?thesis
    proof (cases "\<bar>previousY - clientY ev\<bar> < 1")
      case True
      with live Some
      have "handlePointerMove ev now s = s\<lparr>lastY := Some (clientY ev), lastTime := Some now\<rparr>"
        by (simp add: handlePointerMove_def Let_def)
      then show ?thesis by blast
    next
      case False
      with live Some
      have "\<exists>v d. handlePointerMove ev now s
         = snd (scrollByPixels d (s\<lparr>lastY := Some (clientY ev), lastTime := Some now, velocity := v\<rparr>))"
        by (simp add: handlePointerMove_def Let_def) blast
      then show ?thesis by blast
    qed
  qed
qed

lemma handleTouchMove_shape:
  "handleTouchMove touches now s = s\<lparr>lastY := None, lastTime := None, velocity := 0, rafId := None\<rparr>
   \<or> (\<exists>a b. handleTouchMove touches now s = s\<lparr>lastY := a, lastTime := b\<rparr>)
   \<or> (\<exists>a b v d. handleTouchMove touches now s
         = snd (scrollByPixels d (s\<lparr>lastY := a, lastTime := b, velocity := v\<rparr>)))"
proof (cases "\<exists>y. touches = [y]")
  case False
  then have "handleTouchMove touches now s
      = s\<lparr>lastY := None, lastTime := None, velocity := 0, rafId := None\<rparr>"
    by (cases touches; cases "tl touches")
       (simp_all add: handleTouchMove_def stopKinetic_def)
  then show ?thesis by blast
next
  case True
  then obtain currentY where t: "touches = [currentY]" by auto
  show ?thesis
  proof (cases "lastY s")
    case None
    then have "handleTouchMove touches now s = s\<lparr>lastY := Some currentY, lastTime := Some now\<rparr>"
      by (simp add: t handleTouchMove_def)
    then show ?thesis by blast
  next
    case (Some previousY)
    show ?thesis
    proof (cases "\<bar>previousY - currentY\<bar> < 1")
      case True
      with Some
      have "handleTouchMove touches now s = s\<lparr>lastY := Some currentY, lastTime := Some now\<rparr>"
        by (simp add: t handleTouchMove_def Let_def)
      then show ?thesis by blast
    next
      case False
      with Some
      have "\<exists>v d. handleTouchMove touches now s
         = snd (scrollByPixels d (s\<lparr>lastY := Some currentY, lastTime := Some now, velocity := v\<rparr>))"
        by (simp add: t handleTouchMove_def Let_def) blast
      then show ?thesis by blast
    qed
  qed
qed

lemma inRange_fields:
  "inRange (s\<lparr>lastY := a, lastTime := b\<rparr>) = inRange s"
  "inRange (s\<lparr>lastY := a, lastTime := b, velocity := v\<rparr>) = inRange s"
  "inRange (s\<lparr>lastY := a, lastTime := b, velocity := v, rafId := r\<rparr>) = inRange s"
  by (simp_all add: inRange_def getMaxScrollTop_def)

lemma handlePointerMove_geometry:
  "scrollHeight (handlePointerMove ev now s) = scrollHeight s
   \<and> clientHeight (handlePointerMove ev now s) = clientHeight s"
  using handlePointerMove_shape [of ev now s]
  by (elim disjE exE) (simp_all add: scrollByPixels_geometry)

lemma handlePointerMove_range:
  "inRange s \<Longrightarrow> inRange (handlePointerMove ev now s)"
  using handlePointerMove_shape [of ev now s]
  by (elim disjE exE) (simp_all add: scrollByPixels_range inRange_fields)

lemma handleTouchMove_geometry:
  "scrollHeight (handleTouchMove touches now s) = scrollHeight s
   \<and> clientHeight (handleTouchMove touches now s) = clientHeight s"
  using handleTouchMove_shape [of touches now s]
  by (elim disjE exE) (simp_all add: scrollByPixels_geometry)

lemma handleTouchMove_range:
  "inRange s \<Longrightarrow> inRange (handleTouchMove touches now s)"
  using handleTouchMove_shape [of touches now s]
  by (elim disjE exE) (simp_all add: scrollByPixels_range inRange_fields)

text \<open>The frame callback, with the scroll it performs named.\<close>

lemma scrollByPixels_moved:
  "(case fst (scrollByPixels d s) of None \<Rightarrow> False | Some b \<Rightarrow> b)
   = (scrollTop (snd (scrollByPixels d s)) \<noteq> scrollTop s)"
  by (simp add: scrollByPixels_def Let_def)

lemma scrollByPixels_others:
  "velocity (snd (scrollByPixels d s)) = velocity s"
  "rafCount (snd (scrollByPixels d s)) = rafCount s"
  by (simp_all add: scrollByPixels_def setScrollTop_def Let_def)

lemma inertiaStep_unfold:
  "inertiaStep frameTime lastFrame s =
     (let dt = max (frameTime - lastFrame) 8;
          s1 = snd (scrollByPixels (velocity s * dt) s);
          nextMagnitude = max 0 (\<bar>velocity s\<bar> - deceleration * dt)
      in if scrollTop s1 = scrollTop s \<or> nextMagnitude \<le> minVelocity
         then s1\<lparr>velocity := 0, rafId := None\<rparr>
         else s1\<lparr>velocity := nextMagnitude * sgn (velocity s),
                 rafCount := Suc (rafCount s), rafId := Some (Suc (rafCount s))\<rparr>)"
  unfolding inertiaStep_def Let_def case_prod_beta scrollByPixels_moved scrollByPixels_others
    stopKinetic_def requestAnimationFrame_def
  by (simp (no_asm) add: scrollByPixels_others)

lemma inertiaStep_geometry:
  "scrollHeight (inertiaStep frameTime lastFrame s) = scrollHeight s
   \<and> clientHeight (inertiaStep frameTime lastFrame s) = clientHeight s"
  unfolding inertiaStep_unfold by (simp add: Let_def scrollByPixels_geometry)

lemma inertiaStep_range:
  assumes "inRange s"
  shows "inRange (inertiaStep frameTime lastFrame s)"
proof -
  have "inRange (snd (scrollByPixels (velocity s * max (frameTime - lastFrame) 8) s))"
    using assms by (rule scrollByPixels_range)
  then show ?thesis
    unfolding inertiaStep_unfold by (simp add: Let_def inRange_def getMaxScrollTop_def)
qed

lemma fire_geometry:
  "scrollHeight (fire s e) = scrollHeight s \<and> clientHeight (fire s e) = clientHeight s"
  by (cases e)
     (simp_all add: handlePointerDown_keeps handlePointerMove_geometry handlePointerUp_keeps
        handleTouchStart_keeps handleTouchMove_geometry handleTouchEnd_keeps
        inertiaStep_geometry)

lemma fire_range: "inRange s \<Longrightarrow> inRange (fire s e)"
proof (cases e)
  case (PointerDown ev now)
  then show "inRange s \<Longrightarrow> inRange (fire s e)"
    by (simp add: inRange_cong [of "handlePointerDown ev now s" s] handlePointerDown_keeps)
next
  case (PointerMove ev now)
  then show "inRange s \<Longrightarrow> inRange (fire s e)" by (simp add: handlePointerMove_range)
next
  case (PointerUp ev now)
  then show "inRange s \<Longrightarrow> inRange (fire s e)"
    by (simp add: inRange_cong [of "handlePointerUp ev now s" s] handlePointerUp_keeps)
next
  case (TouchStart touches now)
  then show "inRange s \<Longrightarrow> inRange (fire s e)"
    by (simp add: inRange_cong [of "handleTouchStart touches now s" s] handleTouchStart_keeps)
next
  case (TouchMove touches now)
  then show "inRange s \<Longrightarrow> inRange (fire s e)" by (simp add: handleTouchMove_range)
next
  case (TouchEnd now)
  then show "inRange s \<Longrightarrow> inRange (fire s e)"
    by (simp add: inRange_cong [of "handleTouchEnd now s" s] handleTouchEnd_keeps)
next
  case (AnimationFrame frameTime lastFrame)
  then show "inRange s \<Longrightarrow> inRange (fire s e)" by (simp add: inertiaStep_range)
qed

lemma fireAll_range:
  "inRange s \<Longrightarrow>
   inRange (fireAll evs s) \<and> scrollHeight (fireAll evs s) = scrollHeight s
   \<and> clientHeight (fireAll evs s) = clientHeight s"
  unfolding fireAll_def
proof (induction evs arbitrary: s)
  case Nil
  then show ?case by simp
next
  case (Cons e evs)
  from Cons.prems have "inRange (fire s e)" by (rule fire_range)
  from Cons.IH [OF this] show ?case by (simp add: fire_geometry)
qed

text \<open>
  Claim C5: with the scroll offset of the viewport in \<open>[0, scrollHeight - clientHeight]\<close> to
  start with (the DOM keeps \<open>clientHeight \<le> scrollHeight\<close>), it is in that interval after
  every sequence of runs of the engine's handlers (pointer and touch samples, releases,
  animation frames, in any order and with any arguments); and whatever offset
  \<^verbatim>\<open>setScrollTop\<close> is asked for, the offset it stores is in that interval.
\<close>

theorem scroll_clamped:
  assumes "clientHeight s \<le> scrollHeight s"
    and "0 \<le> scrollTop s" and "scrollTop s \<le> scrollHeight s - clientHeight s"
  shows "0 \<le> scrollTop (fireAll evs s)
     \<and> scrollTop (fireAll evs s) \<le> scrollHeight s - clientHeight s
     \<and> 0 \<le> scrollTop (setScrollTop x s)
     \<and> scrollTop (setScrollTop x s) \<le> scrollHeight s - clientHeight s"
proof -
  have m: "getMaxScrollTop s = scrollHeight s - clientHeight s"
    using assms(1) by (simp add: getMaxScrollTop_def)
  have "inRange s" using assms by (simp add: inRange_def m)
  from fireAll_range [OF this, of evs]
  have "inRange (fireAll evs s)" and "getMaxScrollTop (fireAll evs s) = getMaxScrollTop s"
    by (simp_all add: getMaxScrollTop_def)
  then have "0 \<le> scrollTop (fireAll evs s)
     \<and> scrollTop (fireAll evs s) \<le> scrollHeight s - clientHeight s"
    by (simp add: inRange_def m)
  then show ?thesis using setScrollTop_range [of x s] by (simp add: m)
qed

theorem scroll_clamped_witness:
  "clientHeight (resting 500) \<le> scrollHeight (resting 500)
   \<and> 0 \<le> scrollTop (resting 500)
   \<and> scrollTop (resting 500) \<le> scrollHeight (resting 500) - clientHeight (resting 500)
   \<and> 0 \<le> scrollTop (fireAll [PointerDown (touch_at 100) 0, PointerMove (touch_at 0) 16]
            (resting 500))
   \<and> scrollTop (fireAll [PointerDown (touch_at 100) 0, PointerMove (touch_at 0) 16]
         (resting 500)) \<le> 900
   \<and> scrollTop (setScrollTop 1000 (resting 500)) \<le> 900"
proof -
  have a: "clientHeight (resting 500) \<le> scrollHeight (resting 500)"
    by (simp add: resting_def)
  have b: "0 \<le> scrollTop (resting 500)" by (simp add: resting_def)
  have c: "scrollTop (resting 500) \<le> scrollHeight (resting 500) - clientHeight (resting 500)"
    by (simp add: resting_def)
  have d: "scrollHeight (resting 500) - clientHeight (resting 500) = 900"
    by (simp add: resting_def)
  from scroll_clamped [OF a b c, of "[PointerDown (touch_at 100) 0, PointerMove (touch_at 0) 16]" 1000]
  show ?thesis using a b c unfolding d by blast
qed
lemma handlePointerMove_jitter:
  assumes "pointerType ev = ''touch''" and "pointerId s = Some (evPointerId ev)"
    and "lastY s = Some previousY" and "\<bar>previousY - clientY ev\<bar> < 1"
  shows "handlePointerMove ev now s = s\<lparr>lastY := Some (clientY ev), lastTime := Some now\<rparr>"
  using assms by (simp add: handlePointerMove_def Let_def)

lemma handleTouchMove_jitter:
  assumes "lastY s = Some previousY" and "\<bar>previousY - currentY\<bar> < 1"
  shows "handleTouchMove [currentY] now s = s\<lparr>lastY := Some currentY, lastTime := Some now\<rparr>"
  using assms by (simp add: handleTouchMove_def Let_def)

lemma clientY_touch_at: "clientY (touch_at y) = y"
  by (simp add: touch_at_def)

lemma tracking_eval:
  "tracking = (resting 500)\<lparr>pointerId := Some 1, lastY := Some 100, lastTime := Some 0\<rparr>"
  by (simp add: tracking_def handlePointerDown_def touch_at_def resting_def stopKinetic_def)

text \<open>
  Claim C8: a move sample whose \<open>|deltaY|\<close> is below 1 pixel changes neither the scroll
  offset nor the velocity, on the pointer path and on the touch path.
\<close>

theorem jitter_floor:
  assumes "lastY s = Some previousY" and "\<bar>previousY - clientY ev\<bar> < 1"
  shows "velocity (handlePointerMove ev now s) = velocity s
     \<and> scrollTop (handlePointerMove ev now s) = scrollTop s
     \<and> velocity (handleTouchMove [clientY ev] now s) = velocity s
     \<and> scrollTop (handleTouchMove [clientY ev] now s) = scrollTop s"
proof (cases "pointerType ev = ''touch'' \<and> pointerId s = Some (evPointerId ev)")
  case True
  then show ?thesis
    using assms by (simp add: handlePointerMove_jitter handleTouchMove_jitter)
next
  case False
  then have "handlePointerMove ev now s = s" by (auto simp: handlePointerMove_def)
  then show ?thesis using assms by (simp add: handleTouchMove_jitter)
qed

theorem jitter_floor_witness:
  "lastY tracking = Some 100 \<and> \<bar>100 - clientY (touch_at 99.5)\<bar> < 1
   \<and> velocity (handlePointerMove (touch_at 99.5) 10 tracking) = 0
   \<and> scrollTop (handlePointerMove (touch_at 99.5) 10 tracking) = 500
   \<and> velocity (handleTouchMove [99.5] 10 tracking) = 0
   \<and> scrollTop (handleTouchMove [99.5] 10 tracking) = 500"
proof -
  have a: "lastY tracking = Some 100" by (simp add: tracking_eval)
  have b: "\<bar>100 - clientY (touch_at 99.5)\<bar> < 1" by (simp add: touch_at_def)
  show ?thesis
    using jitter_floor [OF a b, of 10] a b
    by (simp add: clientY_touch_at) (simp add: tracking_eval resting_def)
qed

text \<open>What a move handler does with a sample once a position and a time are stored.\<close>

lemma handlePointerMove_tracked:
  assumes "pointerType ev = ''touch''" and "pointerId s = Some (evPointerId ev)"
    and "lastY s = Some previousY" and "lastTime s = Some previousTime"
  shows "handlePointerMove ev now s =
     (let deltaY = previousY - clientY ev in
      if \<bar>deltaY\<bar> < 1 then s\<lparr>lastY := Some (clientY ev), lastTime := Some now\<rparr>
      else
        (let dt = max (now - previousTime) 8;
             deltaPixels =
               deltaY * (baseScrollMultiplier
                         + min maxScrollBoost (\<bar>deltaY\<bar> / boostDenominator));
             v = velocity s * (1 - velocityAlpha) + deltaPixels / dt * velocityAlpha
         in snd (scrollByPixels deltaPixels
              (s\<lparr>lastY := Some (clientY ev), lastTime := Some now,
                 velocity := (if v > maxVelocity then maxVelocity
                              else if v < - maxVelocity then - maxVelocity else v)\<rparr>))))"
proof (cases "\<bar>previousY - clientY ev\<bar> < 1")
  case True
  with assms show ?thesis by (simp add: handlePointerMove_def Let_def)
next
  case False
  with assms show ?thesis by (simp (no_asm_simp) add: handlePointerMove_def Let_def)
qed

lemma handleTouchMove_tracked:
  assumes "lastY s = Some previousY" and "lastTime s = Some previousTime"
  shows "handleTouchMove [currentY] now s =
     (let deltaY = previousY - currentY in
      if \<bar>deltaY\<bar> < 1 then s\<lparr>lastY := Some currentY, lastTime := Some now\<rparr>
      else
        (let dt = max (now - previousTime) 8;
             deltaPixels =
               deltaY * (baseScrollMultiplier
                         + min maxScrollBoost (\<bar>deltaY\<bar> / boostDenominator));
             v = velocity s * (1 - velocityAlpha) + deltaPixels / dt * velocityAlpha
         in snd (scrollByPixels deltaPixels
              (s\<lparr>lastY := Some currentY, lastTime := Some now,
                 velocity := (if v > maxVelocity then maxVelocity
                              else if v < - maxVelocity then - maxVelocity else v)\<rparr>))))"
proof (cases "\<bar>previousY - currentY\<bar> < 1")
  case True
  with assms show ?thesis by (simp add: handleTouchMove_def Let_def)
next
  case False
  with assms show ?thesis by (simp (no_asm_simp) add: handleTouchMove_def Let_def)
qed

lemma touching_eval:
  "touching = (resting 500)\<lparr>lastY := Some 100, lastTime := Some 0\<rparr>"
  by (simp add: touching_def handleTouchStart_def resting_def stopKinetic_def)

text \<open>
  Claim C9: a move sample that the jitter floor ignores still replaces the stored last
  position and last timestamp, on the pointer path and on the touch path. The next sample,
  whatever it is, is therefore measured from the ignored one: its \<open>deltaY\<close> is the
  position of the ignored sample minus its own, and its \<open>dt\<close> is the time since the
  ignored sample (floored at 8 ms); the position and time stored before the ignored sample
  (\<open>previousY\<close>, \<open>lastTime s\<close>) no longer enter. The pointer path needs the sample to
  belong to the tracked touch pointer; the touch path has no such condition.
\<close>

theorem jitter_overwrites_last:
  assumes "lastY s = Some previousY" and "\<bar>previousY - clientY ev\<bar> < 1"
  shows
    "(pointerType ev = ''touch'' \<and> pointerId s = Some (evPointerId ev) \<longrightarrow>
        handlePointerMove ev now s = s\<lparr>lastY := Some (clientY ev), lastTime := Some now\<rparr>
        \<and> (pointerType ev2 = ''touch'' \<and> evPointerId ev2 = evPointerId ev \<longrightarrow>
             handlePointerMove ev2 now2 (handlePointerMove ev now s) =
               (let deltaY = clientY ev - clientY ev2 in
                if \<bar>deltaY\<bar> < 1
                then s\<lparr>lastY := Some (clientY ev2), lastTime := Some now2\<rparr>
                else
                  (let dt = max (now2 - now) 8;
                       deltaPixels =
                         deltaY * (baseScrollMultiplier
                                   + min maxScrollBoost (\<bar>deltaY\<bar> / boostDenominator));
                       v = velocity s * (1 - velocityAlpha)
                           + deltaPixels / dt * velocityAlpha
                   in snd (scrollByPixels deltaPixels
                        (s\<lparr>lastY := Some (clientY ev2), lastTime := Some now2,
                           velocity := (if v > maxVelocity then maxVelocity
                                        else if v < - maxVelocity then - maxVelocity
                                        else v)\<rparr>))))))
     \<and> handleTouchMove [clientY ev] now s
         = s\<lparr>lastY := Some (clientY ev), lastTime := Some now\<rparr>
     \<and> handleTouchMove [y2] now2 (handleTouchMove [clientY ev] now s) =
         (let deltaY = clientY ev - y2 in
          if \<bar>deltaY\<bar> < 1 then s\<lparr>lastY := Some y2, lastTime := Some now2\<rparr>
          else
            (let dt = max (now2 - now) 8;
                 deltaPixels =
                   deltaY * (baseScrollMultiplier
                             + min maxScrollBoost (\<bar>deltaY\<bar> / boostDenominator));
                 v = velocity s * (1 - velocityAlpha) + deltaPixels / dt * velocityAlpha
             in snd (scrollByPixels deltaPixels
                  (s\<lparr>lastY := Some y2, lastTime := Some now2,
                     velocity := (if v > maxVelocity then maxVelocity
                                  else if v < - maxVelocity then - maxVelocity
                                  else v)\<rparr>))))"
proof -
  let ?s1 = "s\<lparr>lastY := Some (clientY ev), lastTime := Some now\<rparr>"
  have y1: "lastY ?s1 = Some (clientY ev)" and t1: "lastTime ?s1 = Some now" by simp_all
  have tm: "handleTouchMove [clientY ev] now s = ?s1"
    using assms by (rule handleTouchMove_jitter)
  have tn: "handleTouchMove [y2] now2 ?s1 =
         (let deltaY = clientY ev - y2 in
          if \<bar>deltaY\<bar> < 1 then s\<lparr>lastY := Some y2, lastTime := Some now2\<rparr>
          else
            (let dt = max (now2 - now) 8;
                 deltaPixels =
                   deltaY * (baseScrollMultiplier
                             + min maxScrollBoost (\<bar>deltaY\<bar> / boostDenominator));
                 v = velocity s * (1 - velocityAlpha) + deltaPixels / dt * velocityAlpha
             in snd (scrollByPixels deltaPixels
                  (s\<lparr>lastY := Some y2, lastTime := Some now2,
                     velocity := (if v > maxVelocity then maxVelocity
                                  else if v < - maxVelocity then - maxVelocity
                                  else v)\<rparr>))))"
    unfolding handleTouchMove_tracked [OF y1 t1] by (simp (no_asm) add: Let_def)
  have pm: "handlePointerMove ev now s = ?s1"
    if "pointerType ev = ''touch''" and "pointerId s = Some (evPointerId ev)"
    using that assms by (rule handlePointerMove_jitter)
  have pn: "handlePointerMove ev2 now2 ?s1 =
               (let deltaY = clientY ev - clientY ev2 in
                if \<bar>deltaY\<bar> < 1
                then s\<lparr>lastY := Some (clientY ev2), lastTime := Some now2\<rparr>
                else
                  (let dt = max (now2 - now) 8;
                       deltaPixels =
                         deltaY * (baseScrollMultiplier
                                   + min maxScrollBoost (\<bar>deltaY\<bar> / boostDenominator));
                       v = velocity s * (1 - velocityAlpha)
                           + deltaPixels / dt * velocityAlpha
                   in snd (scrollByPixels deltaPixels
                        (s\<lparr>lastY := Some (clientY ev2), lastTime := Some now2,
                           velocity := (if v > maxVelocity then maxVelocity
                                        else if v < - maxVelocity then - maxVelocity
                                        else v)\<rparr>))))"
    if a: "pointerId s = Some (evPointerId ev)"
      and b: "pointerType ev2 = ''touch''" and c: "evPointerId ev2 = evPointerId ev"
  proof -
    have p: "pointerId ?s1 = Some (evPointerId ev2)" using a c by simp
    show ?thesis
      unfolding handlePointerMove_tracked [OF b p y1 t1] by (simp (no_asm) add: Let_def)
  qed
  show ?thesis
    unfolding tm using tn pm pn by (simp (no_asm_simp))
qed

theorem jitter_overwrites_last_witness:
  "lastY tracking = Some 100 \<and> lastTime tracking = Some 0
   \<and> lastY (handlePointerMove (touch_at 99.5) 10 tracking) = Some 99.5
   \<and> lastTime (handlePointerMove (touch_at 99.5) 10 tracking) = Some 10
   \<and> scrollTop (handlePointerMove (touch_at 90) 50
        (handlePointerMove (touch_at 99.5) 10 tracking)) = 524.51
   \<and> velocity (handlePointerMove (touch_at 90) 50
        (handlePointerMove (touch_at 99.5) 10 tracking)) = 0.1531875
   \<and> pointerId touching = None
   \<and> lastY (handleTouchMove [99.5] 10 touching) = Some 99.5
   \<and> lastTime (handleTouchMove [99.5] 10 touching) = Some 10
   \<and> scrollTop (handleTouchMove [90] 50 (handleTouchMove [99.5] 10 touching)) = 524.51
   \<and> velocity (handleTouchMove [90] 50 (handleTouchMove [99.5] 10 touching)) = 0.1531875
   \<and> scrollTop (handlePointerMove (touch_at 90) 50 tracking) = 526
   \<and> velocity (handlePointerMove (touch_at 90) 50 tracking) = 0.13"
proof -
  have a: "lastY tracking = Some 100" and a0: "lastTime tracking = Some 0"
    by (simp_all add: tracking_eval)
  have b: "\<bar>100 - clientY (touch_at 99.5)\<bar> < 1" by (simp add: touch_at_def)
  have c: "pointerType (touch_at 99.5) = ''touch''
      \<and> pointerId tracking = Some (evPointerId (touch_at 99.5))"
    by (simp add: tracking_eval touch_at_def)
  have e: "pointerType (touch_at 90) = ''touch''
      \<and> evPointerId (touch_at 90) = evPointerId (touch_at 99.5)"
    by (simp add: touch_at_def)
  have ta: "lastY touching = Some 100" and tp: "pointerId touching = None"
    by (simp_all add: touching_eval resting_def)
  note th = jitter_overwrites_last [OF a b, of 10 "touch_at 90" 50 90]
  note tt = jitter_overwrites_last [OF ta b, of 10 "touch_at 90" 50 90]
  from th c have p1: "handlePointerMove (touch_at 99.5) 10 tracking
      = tracking\<lparr>lastY := Some 99.5, lastTime := Some 10\<rparr>"
    unfolding clientY_touch_at by blast
  note r2 = th [THEN conjunct1, THEN mp, OF c, THEN conjunct2, THEN mp, OF e]
  have p2: "handlePointerMove (touch_at 90) 50 (handlePointerMove (touch_at 99.5) 10 tracking)
      = tracking\<lparr>lastY := Some 90, lastTime := Some 50, velocity := 0.1531875,
                  scrollTop := 524.51\<rparr>"
    unfolding r2
    by (simp add: clientY_touch_at Let_def tracking_eval resting_def scrollByPixels_def
        setScrollTop_def getMaxScrollTop_def baseScrollMultiplier_def maxScrollBoost_def
        boostDenominator_def velocityAlpha_def maxVelocity_def)
  from tt [THEN conjunct2, THEN conjunct1]
  have t1: "handleTouchMove [99.5] 10 touching
      = touching\<lparr>lastY := Some 99.5, lastTime := Some 10\<rparr>"
    unfolding clientY_touch_at .
  note r4 = tt [THEN conjunct2, THEN conjunct2, unfolded clientY_touch_at]
  have t2: "handleTouchMove [90] 50 (handleTouchMove [99.5] 10 touching)
      = touching\<lparr>lastY := Some 90, lastTime := Some 50, velocity := 0.1531875,
                  scrollTop := 524.51\<rparr>"
    unfolding r4
    by (simp add: Let_def touching_eval resting_def scrollByPixels_def
        setScrollTop_def getMaxScrollTop_def baseScrollMultiplier_def maxScrollBoost_def
        boostDenominator_def velocityAlpha_def maxVelocity_def)
  have direct: "handlePointerMove (touch_at 90) 50 tracking
      = tracking\<lparr>lastY := Some 90, lastTime := Some 50, velocity := 0.13,
                  scrollTop := 526\<rparr>"
    by (simp add: tracking_eval touch_at_def resting_def handlePointerMove_def Let_def
        scrollByPixels_def setScrollTop_def getMaxScrollTop_def baseScrollMultiplier_def
        maxScrollBoost_def boostDenominator_def velocityAlpha_def maxVelocity_def)
  have q1: "lastY (handlePointerMove (touch_at 99.5) 10 tracking) = Some 99.5"
    "lastTime (handlePointerMove (touch_at 99.5) 10 tracking) = Some 10"
    by (simp_all only: p1) simp_all
  have q2: "scrollTop (handlePointerMove (touch_at 90) 50
        (handlePointerMove (touch_at 99.5) 10 tracking)) = 524.51"
    "velocity (handlePointerMove (touch_at 90) 50
        (handlePointerMove (touch_at 99.5) 10 tracking)) = 0.1531875"
    by (simp_all only: p2) simp_all
  have q3: "lastY (handleTouchMove [99.5] 10 touching) = Some 99.5"
    "lastTime (handleTouchMove [99.5] 10 touching) = Some 10"
    by (simp_all only: t1) simp_all
  have q4: "scrollTop (handleTouchMove [90] 50 (handleTouchMove [99.5] 10 touching)) = 524.51"
    "velocity (handleTouchMove [90] 50 (handleTouchMove [99.5] 10 touching)) = 0.1531875"
    by (simp_all only: t2) simp_all
  have q5: "scrollTop (handlePointerMove (touch_at 90) 50 tracking) = 526"
    "velocity (handlePointerMove (touch_at 90) 50 tracking) = 0.13"
    by (simp_all only: direct) simp_all
  from a a0 tp q1 q2 q3 q4 q5 show ?thesis by blast
qed

section \<open>Termination of the inertial animation\<close>

lemma inertiaStep_stop:
  assumes "scrollTop (snd (scrollByPixels (velocity s * max (frameTime - lastFrame) 8) s))
        = scrollTop s
      \<or> max 0 (\<bar>velocity s\<bar> - deceleration * max (frameTime - lastFrame) 8) \<le> minVelocity"
  shows "inertiaStep frameTime lastFrame s
     = (snd (scrollByPixels (velocity s * max (frameTime - lastFrame) 8) s))
         \<lparr>velocity := 0, rafId := None\<rparr>"
  unfolding inertiaStep_unfold Let_def using assms by (simp only: if_True)

lemma inertiaStep_go:
  assumes "\<not> (scrollTop (snd (scrollByPixels (velocity s * max (frameTime - lastFrame) 8) s))
        = scrollTop s
      \<or> max 0 (\<bar>velocity s\<bar> - deceleration * max (frameTime - lastFrame) 8) \<le> minVelocity)"
  shows "inertiaStep frameTime lastFrame s
     = (snd (scrollByPixels (velocity s * max (frameTime - lastFrame) 8) s))
         \<lparr>velocity := max 0 (\<bar>velocity s\<bar> - deceleration * max (frameTime - lastFrame) 8)
                      * sgn (velocity s),
          rafCount := Suc (rafCount s), rafId := Some (Suc (rafCount s))\<rparr>"
  unfolding inertiaStep_unfold Let_def using assms by (simp only: if_False)

lemma inertiaStep_stops_iff:
  "(rafId (inertiaStep frameTime lastFrame s) = None)
   = (scrollTop (snd (scrollByPixels (velocity s * max (frameTime - lastFrame) 8) s))
        = scrollTop s
      \<or> max 0 (\<bar>velocity s\<bar> - deceleration * max (frameTime - lastFrame) 8) \<le> minVelocity)"
proof (cases "scrollTop (snd (scrollByPixels (velocity s * max (frameTime - lastFrame) 8) s))
        = scrollTop s
      \<or> max 0 (\<bar>velocity s\<bar> - deceleration * max (frameTime - lastFrame) 8) \<le> minVelocity")
  case True
  show ?thesis unfolding inertiaStep_stop [OF True] using True by simp
next
  case False
  show ?thesis unfolding inertiaStep_go [OF False] using False by simp
qed

lemma inertiaStep_stopped_velocity:
  assumes "rafId (inertiaStep frameTime lastFrame s) = None"
  shows "velocity (inertiaStep frameTime lastFrame s) = 0"
proof -
  from assms have c: "scrollTop (snd (scrollByPixels (velocity s * max (frameTime - lastFrame) 8) s))
        = scrollTop s
      \<or> max 0 (\<bar>velocity s\<bar> - deceleration * max (frameTime - lastFrame) 8) \<le> minVelocity"
    unfolding inertiaStep_stops_iff .
  show ?thesis unfolding inertiaStep_stop [OF c] by simp
qed

lemma inertiaStep_continues:
  assumes "rafId (inertiaStep frameTime lastFrame s) \<noteq> None"
  shows "velocity (inertiaStep frameTime lastFrame s)
       = sgn (velocity s) * (\<bar>velocity s\<bar> - deceleration * max (frameTime - lastFrame) 8)
     \<and> minVelocity < \<bar>velocity s\<bar> - deceleration * max (frameTime - lastFrame) 8"
proof -
  define m where "m = \<bar>velocity s\<bar> - deceleration * max (frameTime - lastFrame) 8"
  from assms have c: "\<not> (scrollTop (snd (scrollByPixels (velocity s * max (frameTime - lastFrame) 8) s))
        = scrollTop s
      \<or> max 0 (\<bar>velocity s\<bar> - deceleration * max (frameTime - lastFrame) 8) \<le> minVelocity)"
    unfolding inertiaStep_stops_iff .
  then have big: "\<not> max 0 m \<le> minVelocity" unfolding m_def by blast
  have pos: "0 < minVelocity" by (simp add: minVelocity_def)
  from big pos have m: "minVelocity < m" "max 0 m = m" by auto
  have "velocity (inertiaStep frameTime lastFrame s) = max 0 m * sgn (velocity s)"
    unfolding inertiaStep_go [OF c] m_def by simp
  with m show ?thesis by (simp add: m_def mult.commute)
qed

lemma kineticLoop_stop:
  "rafId (inertiaStep frameTime lastFrame s) = None \<Longrightarrow>
   kineticLoop lastFrame (frameTime # rest) s = (1, inertiaStep frameTime lastFrame s)"
  by (simp add: Let_def)

lemma kineticLoop_go:
  "rafId (inertiaStep frameTime lastFrame s) \<noteq> None \<Longrightarrow>
   kineticLoop lastFrame (frameTime # rest) s =
     (Suc (fst (kineticLoop frameTime rest (inertiaStep frameTime lastFrame s))),
      snd (kineticLoop frameTime rest (inertiaStep frameTime lastFrame s)))"
  by (auto simp add: Let_def split_beta)

lemma frames_needed_pos:
  assumes "0 < d" and "v \<noteq> 0"
  shows "1 \<le> nat \<lceil>\<bar>v\<bar> / (deceleration * d)\<rceil>"
proof -
  have "0 < \<bar>v\<bar> / (deceleration * d)"
    using assms by (simp add: deceleration_def)
  then have "1 \<le> \<lceil>\<bar>v\<bar> / (deceleration * d)\<rceil>" by simp
  then show ?thesis by linarith
qed

lemma frames_needed_decrease:
  assumes d: "0 < d" and dt: "d \<le> dt" and m: "0 < \<bar>v\<bar> - deceleration * dt"
  shows "Suc (nat \<lceil>(\<bar>v\<bar> - deceleration * dt) / (deceleration * d)\<rceil>)
         \<le> nat \<lceil>\<bar>v\<bar> / (deceleration * d)\<rceil>"
proof -
  have k: "0 < deceleration * d" using d by (simp add: deceleration_def)
  have "deceleration * d \<le> deceleration * dt"
    using dt by (simp add: deceleration_def)
  then have "\<bar>v\<bar> - deceleration * dt \<le> \<bar>v\<bar> - deceleration * d" by simp
  then have "(\<bar>v\<bar> - deceleration * dt) / (deceleration * d)
       \<le> (\<bar>v\<bar> - deceleration * d) / (deceleration * d)"
    using k by (simp add: divide_right_mono)
  also have "\<dots> = \<bar>v\<bar> / (deceleration * d) - 1"
    using d by (simp add: diff_divide_distrib deceleration_def)
  finally have "\<lceil>(\<bar>v\<bar> - deceleration * dt) / (deceleration * d)\<rceil>
       \<le> \<lceil>\<bar>v\<bar> / (deceleration * d) - 1\<rceil>"
    by (rule ceiling_mono)
  then have le: "\<lceil>(\<bar>v\<bar> - deceleration * dt) / (deceleration * d)\<rceil>
       \<le> \<lceil>\<bar>v\<bar> / (deceleration * d)\<rceil> - 1"
    by simp
  have "0 < (\<bar>v\<bar> - deceleration * dt) / (deceleration * d)"
    using m k by simp
  then have "1 \<le> \<lceil>(\<bar>v\<bar> - deceleration * dt) / (deceleration * d)\<rceil>" by simp
  with le show ?thesis by linarith
qed

lemma kineticLoop_bound:
  assumes "0 < d"
  shows "(\<forall>dt \<in> set (frameIntervals t0 frames). d \<le> dt) \<Longrightarrow> velocity s \<noteq> 0 \<Longrightarrow>
     fst (kineticLoop t0 frames s) \<le> nat \<lceil>\<bar>velocity s\<bar> / (deceleration * d)\<rceil>
     \<and> (nat \<lceil>\<bar>velocity s\<bar> / (deceleration * d)\<rceil> \<le> length frames
          \<longrightarrow> rafId (snd (kineticLoop t0 frames s)) = None
              \<and> velocity (snd (kineticLoop t0 frames s)) = 0)"
proof (induction frames arbitrary: t0 s)
  case Nil
  from frames_needed_pos [OF assms Nil(2)]
  have "\<not> nat \<lceil>\<bar>velocity s\<bar> / (deceleration * d)\<rceil> \<le> 0" by linarith
  then show ?case by simp
next
  case (Cons t rest)
  let ?dt = "max (t - t0) 8"
  let ?s' = "inertiaStep t t0 s"
  from Cons.prems(1) have dt: "d \<le> ?dt"
    and later: "\<forall>dt \<in> set (frameIntervals t rest). d \<le> dt" by simp_all
  note one = frames_needed_pos [OF assms Cons.prems(2)]
  show ?case
  proof (cases "rafId ?s' = None")
    case True
    have f: "fst (kineticLoop t0 (t # rest) s) = 1"
      and g: "snd (kineticLoop t0 (t # rest) s) = ?s'"
      unfolding kineticLoop_stop [OF True] by simp_all
    from True one show ?thesis
      unfolding f g by (simp only: inertiaStep_stopped_velocity [OF True]) simp
  next
    case False
    note c = inertiaStep_continues [OF False]
    have pos: "0 < minVelocity" by (simp add: minVelocity_def)
    with c have m: "0 < \<bar>velocity s\<bar> - deceleration * ?dt" by linarith
    from c m have abs': "\<bar>velocity ?s'\<bar> = \<bar>velocity s\<bar> - deceleration * ?dt"
      using Cons.prems(2) by (simp add: abs_mult abs_sgn_eq)
    with m have nz: "velocity ?s' \<noteq> 0" by auto
    define B where "B = nat \<lceil>\<bar>velocity s\<bar> / (deceleration * d)\<rceil>"
    define B' where "B' = nat \<lceil>(\<bar>velocity s\<bar> - deceleration * ?dt) / (deceleration * d)\<rceil>"
    have ih: "fst (kineticLoop t rest ?s') \<le> B'
        \<and> (B' \<le> length rest \<longrightarrow> rafId (snd (kineticLoop t rest ?s')) = None
              \<and> velocity (snd (kineticLoop t rest ?s')) = 0)"
      using Cons.IH [OF later nz] unfolding abs' B'_def .
    have dec: "Suc B' \<le> B"
      using frames_needed_decrease [OF assms dt m] unfolding B_def B'_def .
    have f: "fst (kineticLoop t0 (t # rest) s) = Suc (fst (kineticLoop t rest ?s'))"
      and g: "snd (kineticLoop t0 (t # rest) s) = snd (kineticLoop t rest ?s')"
      unfolding kineticLoop_go [OF False] by simp_all
    have len: "length (t # rest) = Suc (length rest)" by simp
    from ih dec have "Suc (fst (kineticLoop t rest ?s')) \<le> B
        \<and> (B \<le> Suc (length rest) \<longrightarrow> rafId (snd (kineticLoop t rest ?s')) = None
              \<and> velocity (snd (kineticLoop t rest ?s')) = 0)"
      by auto
    then show ?thesis unfolding f g len B_def .
  qed
qed

lemma frameIntervals_floor: "\<forall>dt \<in> set (frameIntervals t0 frames). 8 \<le> dt"
  by (induction frames arbitrary: t0) simp_all

lemma slow_release:
  assumes "\<bar>velocity s\<bar> < minVelocity"
  shows "rafCount (handlePointerUp ev now s) = rafCount s
     \<and> rafId (handlePointerUp ev now s) = rafId s
     \<and> rafCount (handleTouchEnd now s) = rafCount s
     \<and> rafId (handleTouchEnd now s) = rafId s"
  using assms by (simp add: handlePointerUp_def handleTouchEnd_def Let_def)

lemma released_eval:
  "minVelocity \<le> \<bar>v\<bar> \<Longrightarrow>
   released v = (resting 500)\<lparr>velocity := v, rafCount := 1, rafId := Some 1\<rparr>"
  by (simp add: released_def handleTouchEnd_def resting_def requestAnimationFrame_def Let_def)
lemma released_04: "released 0.4 = (resting 500)\<lparr>velocity := 0.4, rafCount := 1, rafId := Some 1\<rparr>"
  by (rule released_eval) (simp add: minVelocity_def)

lemma first_frame_04:
  "inertiaStep 16 0 (released 0.4)
   = (resting 506.4)\<lparr>velocity := 0.16, rafCount := 2, rafId := Some 2\<rparr>"
  unfolding released_04
  by (simp add: inertiaStep_def scrollByPixels_def setScrollTop_def getMaxScrollTop_def
      resting_def requestAnimationFrame_def stopKinetic_def minVelocity_def deceleration_def
      Let_def)

lemma second_frame_04:
  "inertiaStep 32 16 ((resting 506.4)\<lparr>velocity := 0.16, rafCount := 2, rafId := Some 2\<rparr>)
   = (resting 508.96)\<lparr>velocity := 0, rafCount := 2, rafId := None\<rparr>"
  by (simp add: inertiaStep_def scrollByPixels_def setScrollTop_def getMaxScrollTop_def
      resting_def requestAnimationFrame_def stopKinetic_def minVelocity_def deceleration_def
      Let_def)

lemma coast_04:
  "kineticLoop 0 [16, 32, 48] (released 0.4)
   = (2, (resting 508.96)\<lparr>velocity := 0, rafCount := 2, rafId := None\<rparr>)"
proof -
  have go: "rafId (inertiaStep 16 0 (released 0.4)) \<noteq> None"
    unfolding first_frame_04 by simp
  have stop: "rafId (inertiaStep 32 16 (inertiaStep 16 0 (released 0.4))) = None"
    unfolding first_frame_04 second_frame_04 by simp
  show ?thesis
    unfolding kineticLoop_go [OF go] kineticLoop_stop [OF stop]
    unfolding first_frame_04 second_frame_04 by simp
qed

lemma frames_needed_04: "nat \<lceil>\<bar>velocity (released 0.4)\<bar> / (deceleration * 16)\<rceil> = 2"
  unfolding released_04 by (simp add: deceleration_def)
lemma fast_release:
  assumes "inBrowser s" and "minVelocity \<le> \<bar>velocity s\<bar>"
  shows "rafId (handleTouchEnd now s) = Some (Suc (rafCount s))
     \<and> velocity (handleTouchEnd now s) = velocity s"
  using assms by (simp add: handleTouchEnd_def requestAnimationFrame_def Let_def)

text \<open>
  Claim C6, as the code has it. A frame that asks for another one has decayed the magnitude
  of the velocity by \<open>0.015 * dt\<close>, \<open>dt\<close> floored at 8 ms, and kept its sign; a frame
  stops the animation, and sets the velocity to 0, exactly when the scroll offset did not
  move or the decayed magnitude is at most 0.05. Started with a velocity other than 0 (a
  release starts it only with \<open>|velocity| \<ge> 0.05\<close>) and with every frame interval at
  least \<open>d > 0\<close>, the animation runs at most \<open>\<lceil>|V| / (0.015 * d)\<rceil>\<close> frames, the quotient
  rounded up to a whole number of frames, and at most \<open>\<lceil>|V| / (0.015 * 8)\<rceil>\<close> frames
  whatever the intervals are; once that many frames have been delivered it has stopped. A
  release with \<open>|velocity| < 0.05\<close> requests no frame, on either path.
\<close>

theorem inertia_terminates:
  assumes "0 < d" and "\<forall>dt \<in> set (frameIntervals t0 frames). d \<le> dt"
    and "velocity s \<noteq> 0"
  shows "fst (kineticLoop t0 frames s) \<le> nat \<lceil>\<bar>velocity s\<bar> / (deceleration * d)\<rceil>
     \<and> fst (kineticLoop t0 frames s) \<le> nat \<lceil>\<bar>velocity s\<bar> / (deceleration * 8)\<rceil>
     \<and> (nat \<lceil>\<bar>velocity s\<bar> / (deceleration * d)\<rceil> \<le> length frames
          \<longrightarrow> rafId (snd (kineticLoop t0 frames s)) = None
              \<and> velocity (snd (kineticLoop t0 frames s)) = 0)
     \<and> (rafId (inertiaStep t t0 s) \<noteq> None
          \<longrightarrow> velocity (inertiaStep t t0 s)
              = sgn (velocity s) * (\<bar>velocity s\<bar> - deceleration * max (t - t0) 8))
     \<and> ((rafId (inertiaStep t t0 s) = None)
          = (scrollTop (snd (scrollByPixels (velocity s * max (t - t0) 8) s)) = scrollTop s
             \<or> max 0 (\<bar>velocity s\<bar> - deceleration * max (t - t0) 8) \<le> minVelocity))
     \<and> (rafId (inertiaStep t t0 s) = None \<longrightarrow> velocity (inertiaStep t t0 s) = 0)
     \<and> (\<bar>velocity r\<bar> < minVelocity
          \<longrightarrow> rafCount (handlePointerUp ev now r) = rafCount r
              \<and> rafId (handlePointerUp ev now r) = rafId r
              \<and> rafCount (handleTouchEnd now r) = rafCount r
              \<and> rafId (handleTouchEnd now r) = rafId r)"
proof -
  note b = kineticLoop_bound [OF assms(1) assms(2) assms(3)]
  have e: "0 < (8::real)" by simp
  note b8 = kineticLoop_bound [OF e frameIntervals_floor assms(3), of t0 frames]
  have c: "rafId (inertiaStep t t0 s) \<noteq> None
          \<longrightarrow> velocity (inertiaStep t t0 s)
              = sgn (velocity s) * (\<bar>velocity s\<bar> - deceleration * max (t - t0) 8)"
    using inertiaStep_continues [of t t0 s] by blast
  have z: "rafId (inertiaStep t t0 s) = None \<longrightarrow> velocity (inertiaStep t t0 s) = 0"
    using inertiaStep_stopped_velocity [of t t0 s] by blast
  have r: "\<bar>velocity r\<bar> < minVelocity
          \<longrightarrow> rafCount (handlePointerUp ev now r) = rafCount r
              \<and> rafId (handlePointerUp ev now r) = rafId r
              \<and> rafCount (handleTouchEnd now r) = rafCount r
              \<and> rafId (handleTouchEnd now r) = rafId r"
    using slow_release [of r ev now] by blast
  from b b8 c z r inertiaStep_stops_iff [of t t0 s] show ?thesis by blast
qed

theorem inertia_terminates_witness:
  "frameIntervals 0 [16, 32, 48] = [16, 16, 16]
   \<and> velocity (released 0.4) = 0.4
   \<and> fst (kineticLoop 0 [16, 32, 48] (released 0.4)) \<le> 2
   \<and> rafId (snd (kineticLoop 0 [16, 32, 48] (released 0.4))) = None
   \<and> velocity (snd (kineticLoop 0 [16, 32, 48] (released 0.4))) = 0
   \<and> rafCount (handleTouchEnd 0 (resting 500)) = 0"
proof -
  have a: "0 < (16::real)" by simp
  have fi: "frameIntervals 0 [16, 32, 48] = [16, 16, 16]" by simp
  have b: "\<forall>dt \<in> set (frameIntervals 0 [16, 32, 48]). 16 \<le> dt" unfolding fi by simp
  have v: "velocity (released 0.4) = 0.4" unfolding released_04 by simp
  have c: "velocity (released 0.4) \<noteq> 0" unfolding v by simp
  have slow: "\<bar>velocity (resting 500)\<bar> < minVelocity"
    by (simp add: resting_def minVelocity_def)
  have three: "(2::nat) \<le> length [16::real, 32, 48]" by simp
  note th = inertia_terminates [OF a b c, of 16 "resting 500" "touch_at 0" 0]
  from th have n: "fst (kineticLoop 0 [16, 32, 48] (released 0.4)) \<le> 2"
    unfolding frames_needed_04 by blast
  from th three have st: "rafId (snd (kineticLoop 0 [16, 32, 48] (released 0.4))) = None
      \<and> velocity (snd (kineticLoop 0 [16, 32, 48] (released 0.4))) = 0"
    unfolding frames_needed_04 by blast
  from th slow have "rafCount (handleTouchEnd 0 (resting 500)) = rafCount (resting 500)"
    by blast
  then have rc: "rafCount (handleTouchEnd 0 (resting 500)) = 0"
    by (simp add: resting_def)
  from fi v n st rc show ?thesis by blast
qed

text \<open>
  Claim C6 as stated bounds the number of frames by \<open>V / (0.015 * frameIntervalEstimate)\<close>
  itself. A touch released at 0.4 pixels per millisecond, with frames exactly 16 ms apart,
  runs 2 frames, and \<open>0.4 / (0.015 * 16)\<close> is below 2.
\<close>

theorem inertia_frames_counterexample:
  "velocity (released 0.4) = 0.4
   \<and> frameIntervals 0 [16, 32, 48] = [16, 16, 16]
   \<and> fst (kineticLoop 0 [16, 32, 48] (released 0.4)) = 2
   \<and> \<bar>velocity (released 0.4)\<bar> / (deceleration * 16)
       < real (fst (kineticLoop 0 [16, 32, 48] (released 0.4)))"
  unfolding coast_04 unfolding released_04 by (simp add: deceleration_def)

end
